theory Spec2Isabelle
  imports Complex_Main "HOL-Library.Word"
begin

section \<open>Satellite scene selection and acquisition (Planetary Computer notebook)\<close>

text \<open>
  The notebook downloads, for every row of the metadata table, one satellite image
  crop. This theory embeds its cells: the helper \<open>get_bounding_box\<close>, the selector
  \<open>select_best_image\<close>, the acquisition loop of the "Get Data" cell and the two cells
  that find and remove all-black image files.

  Conventions of the embedding.
  \<^item> Floats (latitudes, longitudes, metres) are real numbers; NaN coordinates are
    outside the model.
  \<^item> A date is the number of its day. The selector formats every capture time with
    \<open>strftime("%Y-%m-%d")\<close> and parses it back, so only the day of a capture is
    ever looked at; the sample date is a midnight timestamp.
  \<^item> A raised exception is the \<open>Inl\<close> branch of a sum.
  \<^item> The libraries the notebook calls (geopy, the STAC catalog, rioxarray, odc.stac,
    OpenCV, PIL) are parameters: functions that return a value or raise.
\<close>

subsection \<open>Exceptions\<close>

datatype exn =
    NameError
  | AttributeError
  | IndexError
  | FileNotFoundError
  | Exception string
  | LibraryError string

subsection \<open>Bounding box around a point\<close>

type_synonym point = "real \<times> real"
type_synonym bounding_box = "real \<times> real \<times> real \<times> real"
type_synonym geodesic = "real \<Rightarrow> point \<Rightarrow> real \<Rightarrow> exn + point"

text \<open>
  \<open>geo meters (lat, long) bearing\<close> stands for
  \<open>distance.distance(meters=meters).destination(point=(lat, long), bearing=bearing)\<close>,
  the point (latitude, longitude) it returns, or the exception it raises. The four
  calls are made in the order of the source: bearing 180, 270, 0, 90.
\<close>

definition get_bounding_box :: "geodesic \<Rightarrow> real \<Rightarrow> real \<Rightarrow> real \<Rightarrow> exn + bounding_box" where
  "get_bounding_box geo latitute longitude meter_buffer =
     (case geo meter_buffer (latitute, longitude) 180 of Inl e \<Rightarrow> Inl e | Inr south \<Rightarrow>
     (case geo meter_buffer (latitute, longitude) 270 of Inl e \<Rightarrow> Inl e | Inr west \<Rightarrow>
     (case geo meter_buffer (latitute, longitude) 0 of Inl e \<Rightarrow> Inl e | Inr north \<Rightarrow>
     (case geo meter_buffer (latitute, longitude) 90 of Inl e \<Rightarrow> Inl e | Inr east \<Rightarrow>
        (let min_lat = fst south; min_long = snd west;
             max_lat = fst north; max_long = snd east
         in Inr (min_long, min_lat, max_long, max_lat))))))"

definition get_date_range :: "int \<Rightarrow> int \<Rightarrow> int \<times> int" where
  "get_date_range date time_buffer_days =
     (let range_start = date - time_buffer_days in (range_start, date))"

subsection \<open>STAC items and the selector\<close>

text \<open>
  What the selector reads of an item: \<open>item.datetime\<close> (its day), the property
  \<open>platform\<close> and the four numbers of \<open>item.bbox\<close>, in the order
  \<open>[min_long, min_lat, max_long, max_lat]\<close>. The item itself is the opaque handle
  that the crop functions receive. Every item has the three: the catalog query of the
  loop asks for items by their platform.
\<close>

record stac_item =
  item_id :: string
  datetime :: int
  platform :: string
  bbox :: bounding_box

definition min_long :: "stac_item \<Rightarrow> real" where
  "min_long item = fst (bbox item)"

definition min_lat :: "stac_item \<Rightarrow> real" where
  "min_lat item = fst (snd (bbox item))"

definition max_long :: "stac_item \<Rightarrow> real" where
  "max_long item = fst (snd (snd (bbox item)))"

definition max_lat :: "stac_item \<Rightarrow> real" where
  "max_lat item = snd (snd (snd (bbox item)))"

definition contains_sample_point :: "real \<Rightarrow> real \<Rightarrow> stac_item \<Rightarrow> bool" where
  "contains_sample_point latitude longitude item \<longleftrightarrow>
     min_lat item < latitude \<and> max_lat item > latitude \<and>
     min_long item < longitude \<and> max_long item > longitude"

definition time_diff :: "int \<Rightarrow> stac_item \<Rightarrow> int" where
  "time_diff date item = date - datetime item"

text \<open>\<open>str.lower\<close> on the ASCII letters, and the substring test of \<open>str.contains\<close>.\<close>

definition lower_char :: "char \<Rightarrow> char" where
  "lower_char c =
     (case map_of (zip ''ABCDEFGHIJKLMNOPQRSTUVWXYZ'' ''abcdefghijklmnopqrstuvwxyz'') c of
        None \<Rightarrow> c
      | Some l \<Rightarrow> l)"

definition lower :: "string \<Rightarrow> string" where
  "lower s = map lower_char s"

primrec starts_with :: "string \<Rightarrow> string \<Rightarrow> bool" where
  "starts_with [] s = True"
| "starts_with (p # ps) s = (case s of [] \<Rightarrow> False | c # cs \<Rightarrow> p = c \<and> starts_with ps cs)"

primrec str_contains :: "string \<Rightarrow> string \<Rightarrow> bool" where
  "str_contains p [] = (p = [])"
| "str_contains p (c # cs) = (starts_with p (c # cs) \<or> str_contains p cs)"

definition sentinel :: "stac_item \<Rightarrow> bool" where
  "sentinel item = str_contains ''sentinel'' (lower (platform item))"

text \<open>
  The result of the selector: the triple \<open>(nan, nan, nan)\<close>, or the item with its
  platform name and its day.
\<close>

datatype selection = NoImage | Selected stac_item string int

text \<open>
  The data frame \<open>item_details\<close> is the list of its rows, one per item, in the order of
  \<open>items\<close>. A data frame built from the empty list has no columns, so the first
  column access \<open>item_details.min_lat\<close> raises AttributeError. \<open>sort_values\<close> is
  modelled by the stable insertion sort \<open>sort_key\<close>; pandas promises no order
  among rows of equal \<open>time_diff\<close>, and no theorem below depends on one.
  \<open>iloc[0]\<close> on an empty frame raises IndexError.
\<close>

definition select_best_image :: "stac_item list \<Rightarrow> int \<Rightarrow> real \<Rightarrow> real \<Rightarrow> exn + selection" where
  "select_best_image items date latitude longitude =
     (if items = [] then Inl AttributeError
      else
        let item_details = filter (contains_sample_point latitude longitude) items in
        if length item_details = 0 then Inr NoImage
        else
          let item_details =
                (if list_ex sentinel item_details then filter sentinel item_details
                 else item_details)
          in case sort_key (time_diff date) item_details of
               [] \<Rightarrow> Inl IndexError
             | best_item # _ \<Rightarrow> Inr (Selected best_item (platform best_item) (datetime best_item)))"

subsection \<open>Rasters and the all-black test\<close>

text \<open>
  An image array holds 8-bit pixel values. \<open>pixel_sum\<close> is the sum of all pixel
  values, as a number.

  The test of the notebook is \<open>sum(image_array.flatten()) == 0\<close>, with Python's
  builtin \<open>sum\<close>: it starts from the integer 0 and adds the uint8 scalars one by one.
  What the additions compute depends on the NumPy that runs the notebook, and the
  repository pins none.
  \<^item> Up to NumPy 1, the integer 0 plus a uint8 scalar is a 64-bit integer, and so is
    every later partial sum: the result is the pixel sum (64 bits cannot wrap for an
    array that fits in memory).
  \<^item> From NumPy 2 on, the integer 0 plus a uint8 scalar is a uint8 scalar, and uint8
    plus uint8 is uint8, wrapping around with a warning: the result is the pixel sum
    modulo 256.
\<close>

type_synonym raster = "8 word list list list"

definition flatten :: "raster \<Rightarrow> 8 word list" where
  "flatten a = concat (concat a)"

definition pixel_sum :: "raster \<Rightarrow> nat" where
  "pixel_sum a = sum_list (map unat (flatten a))"

datatype numpy_version = Numpy1 | Numpy2

definition py_sum :: "numpy_version \<Rightarrow> 8 word list \<Rightarrow> nat" where
  "py_sum np xs =
     (case np of
        Numpy1 \<Rightarrow> foldl (\<lambda>acc x. acc + unat x) 0 xs
      | Numpy2 \<Rightarrow> unat (foldl (\<lambda>acc x. acc + x) 0 xs))"

definition sum_is_zero :: "numpy_version \<Rightarrow> raster \<Rightarrow> bool" where
  "sum_is_zero np image_array \<longleftrightarrow> py_sum np (flatten image_array) = 0"

subsection \<open>The acquisition loop\<close>

record row =
  uid :: string
  latitude :: real
  longitude :: real
  date :: int
  split :: string

text \<open>
  The collaborators of the loop. \<open>catalog_search\<close> is \<open>catalog.search\<close> followed by
  \<open>get_items\<close>, for the two collections, the four platforms and the cloud cover bound
  the cell fixes. \<open>crop_sentinel_image\<close> and \<open>crop_landsat_image\<close> are the two helper
  functions of the notebook, which only call rioxarray, odc.stac and OpenCV.
  \<open>png_of_array\<close> is \<open>Image.fromarray\<close> on the transposed array followed by
  \<open>image.save\<close>: the pixels that \<open>np.array(Image.open(...))\<close> reads back from the
  file, or the exception raised. \<open>numpy\<close> is the NumPy that runs the cell.
\<close>

record env =
  geodesic_destination :: geodesic
  catalog_search :: "bounding_box \<Rightarrow> int \<times> int \<Rightarrow> exn + stac_item list"
  crop_sentinel_image :: "stac_item \<Rightarrow> bounding_box \<Rightarrow> exn + raster"
  crop_landsat_image :: "stac_item \<Rightarrow> bounding_box \<Rightarrow> exn + raster"
  png_of_array :: "raster \<Rightarrow> exn + raster"
  numpy :: numpy_version

datatype call = CatalogSearch | FetchSentinel | FetchLandsat

text \<open>
  The state the cell works on: the files of \<open>IMAGE_DIR\<close> by name, the two
  accumulators, and the notebook's global names \<open>best_item\<close>, \<open>item_platform\<close> and
  \<open>item_date\<close>. The three names are only ever bound together, by the tuple assignment
  from \<open>select_best_image\<close>, so they are one field: \<open>None\<close> while they are unbound.
  They are globals of the notebook and keep their values from one iteration of the
  loop to the next. \<open>calls\<close> is not a variable of the notebook: it records, per
  sample, every call that goes to the network.
\<close>

record nb_state =
  files :: "string \<rightharpoonup> raster"
  paths_dict :: "string \<rightharpoonup> string"
  errored_ids :: "string list"
  last_selection :: "selection option"
  calls :: "(string \<times> call) list"

definition image_pth :: "row \<Rightarrow> string" where
  "image_pth r = uid r @ ''.png''"

definition query :: "env \<Rightarrow> row \<Rightarrow> nb_state \<Rightarrow> (exn + stac_item list) \<times> nb_state" where
  "query ev r st =
     (case get_bounding_box (geodesic_destination ev) (latitude r) (longitude r) 1000 of
        Inl e \<Rightarrow> (Inl e, st)
      | Inr search_bbox \<Rightarrow>
          (let search_date_range = get_date_range (date r) 15
           in (catalog_search ev search_bbox search_date_range,
               st\<lparr>calls := calls st @ [(uid r, CatalogSearch)]\<rparr>)))"

text \<open>
  With no item the branch is \<open>pass\<close>: nothing is bound and nothing is raised. With
  items, the three names are bound first and the test for \<open>nan\<close> comes after.
\<close>

definition get_best_image :: "stac_item list \<Rightarrow> row \<Rightarrow> nb_state \<Rightarrow> (exn + unit) \<times> nb_state" where
  "get_best_image items r st =
     (if length items = 0 then (Inr (), st)
      else
        (case select_best_image items (date r) (latitude r) (longitude r) of
           Inl e \<Rightarrow> (Inl e, st)
         | Inr sel \<Rightarrow>
             (let st' = st\<lparr>last_selection := Some sel\<rparr>
              in if sel = NoImage then (Inl (Exception ''No image found''), st')
                 else (Inr (), st'))))"

text \<open>
  \<open>item_platform.lower()\<close> raises NameError while the name is unbound and
  AttributeError when it is bound to \<open>nan\<close>, a float.
\<close>

definition crop_image :: "env \<Rightarrow> row \<Rightarrow> nb_state \<Rightarrow> (exn + raster) \<times> nb_state" where
  "crop_image ev r st =
     (case get_bounding_box (geodesic_destination ev) (latitude r) (longitude r) 1000 of
        Inl e \<Rightarrow> (Inl e, st)
      | Inr save_bbox \<Rightarrow>
          (case last_selection st of
             None \<Rightarrow> (Inl NameError, st)
           | Some NoImage \<Rightarrow> (Inl AttributeError, st)
           | Some (Selected best_item item_platform item_date) \<Rightarrow>
               (if str_contains ''sentinel'' (lower item_platform)
                then (crop_sentinel_image ev best_item save_bbox,
                      st\<lparr>calls := calls st @ [(uid r, FetchSentinel)]\<rparr>)
                else (crop_landsat_image ev best_item save_bbox,
                      st\<lparr>calls := calls st @ [(uid r, FetchLandsat)]\<rparr>))))"

definition acquire :: "env \<Rightarrow> row \<Rightarrow> nb_state \<Rightarrow> (exn + raster) \<times> nb_state" where
  "acquire ev r st =
     (case query ev r st of
        (Inl e, st1) \<Rightarrow> (Inl e, st1)
      | (Inr items, st1) \<Rightarrow>
          (case get_best_image items r st1 of
             (Inl e, st2) \<Rightarrow> (Inl e, st2)
           | (Inr _, st2) \<Rightarrow> crop_image ev r st2))"

text \<open>
  The test for an all-black image, then the save. A save that raises is taken to leave
  no file behind.
\<close>

definition save_image_data :: "env \<Rightarrow> row \<Rightarrow> raster \<Rightarrow> nb_state \<Rightarrow> (exn + unit) \<times> nb_state" where
  "save_image_data ev r image_array st =
     (if sum_is_zero (numpy ev) image_array then (Inl (Exception ''Image is all black''), st)
      else
        (case png_of_array ev image_array of
           Inl e \<Rightarrow> (Inl e, st)
         | Inr png \<Rightarrow>
             (Inr (), st\<lparr>files := (files st)(image_pth r \<mapsto> png),
                         paths_dict := (paths_dict st)(uid r \<mapsto> image_pth r)\<rparr>)))"

text \<open>The body of the \<open>try\<close> block.\<close>

definition try_body :: "env \<Rightarrow> row \<Rightarrow> nb_state \<Rightarrow> (exn + unit) \<times> nb_state" where
  "try_body ev r st =
     (case acquire ev r st of
        (Inl e, st') \<Rightarrow> (Inl e, st')
      | (Inr image_array, st') \<Rightarrow> save_image_data ev r image_array st')"

text \<open>One iteration: the test for the file, and the bare \<open>except\<close> around the body.\<close>

definition process_row :: "env \<Rightarrow> nb_state \<Rightarrow> row \<Rightarrow> nb_state" where
  "process_row ev st r =
     (if files st (image_pth r) \<noteq> None
      then st\<lparr>paths_dict := (paths_dict st)(uid r \<mapsto> image_pth r)\<rparr>
      else
        (case try_body ev r st of
           (Inl e, st') \<Rightarrow> st'\<lparr>errored_ids := errored_ids st' @ [uid r]\<rparr>
         | (Inr _, st') \<Rightarrow> st'))"

text \<open>The cell: both accumulators are reset, then the loop runs over the rows.\<close>

definition get_data_cell :: "env \<Rightarrow> row list \<Rightarrow> nb_state \<Rightarrow> nb_state" where
  "get_data_cell ev locations_to_get st =
     foldl (process_row ev) (st\<lparr>paths_dict := Map.empty, errored_ids := []\<rparr>) locations_to_get"

subsection \<open>Removing all-black image files\<close>

text \<open>
  The first cell opens every file named in \<open>imgs\<close> and collects in \<open>black_pngs\<close> the
  names for which \<open>sum(im_arr.flatten()) == 0\<close>; \<open>Image.open\<close> raises FileNotFoundError for a name with no
  file, which ends the cell and leaves \<open>black_pngs\<close> as it is then. The second cell
  removes the collected names; \<open>os.remove\<close> raises FileNotFoundError likewise. Each
  function returns the exception that ended its cell, if any, beside its result.
\<close>

fun scan_black_pngs ::
  "numpy_version \<Rightarrow> (string \<rightharpoonup> raster) \<Rightarrow> string list \<Rightarrow> string list
     \<Rightarrow> exn option \<times> string list" where
  "scan_black_pngs np fs [] black_pngs = (None, black_pngs)"
| "scan_black_pngs np fs (i # imgs) black_pngs =
     (case fs i of
        None \<Rightarrow> (Some FileNotFoundError, black_pngs)
      | Some im_arr \<Rightarrow>
          scan_black_pngs np fs imgs
            (if sum_is_zero np im_arr then black_pngs @ [i] else black_pngs))"

fun remove_black_pngs ::
  "(string \<rightharpoonup> raster) \<Rightarrow> string list \<Rightarrow> exn option \<times> (string \<rightharpoonup> raster)" where
  "remove_black_pngs fs [] = (None, fs)"
| "remove_black_pngs fs (i # black_pngs) =
     (case fs i of
        None \<Rightarrow> (Some FileNotFoundError, fs)
      | Some _ \<Rightarrow> remove_black_pngs (fs(i := None)) black_pngs)"

text \<open>Both cells, one after the other, on the listing \<open>imgs\<close>.\<close>

definition remove_all_black ::
  "numpy_version \<Rightarrow> (string \<rightharpoonup> raster) \<Rightarrow> string list
     \<Rightarrow> (exn option \<times> exn option) \<times> string list \<times> (string \<rightharpoonup> raster)" where
  "remove_all_black np fs imgs =
     (case scan_black_pngs np fs imgs [] of
        (e1, black_pngs) \<Rightarrow>
          (case remove_black_pngs fs black_pngs of
             (e2, fs') \<Rightarrow> ((e1, e2), black_pngs, fs')))"

subsection \<open>Example inputs\<close>

text \<open>
  Concrete inputs on which the theorems below are instantiated: a sample of the
  metadata table (day 31 stands for 2016-08-31), scenes around it, and collaborators
  that answer from a fixed catalogue and return one-pixel rasters. The Landsat scene
  of the example has no data west of longitude -121.5: a crop whose box starts there
  comes back all zero.
\<close>

definition example_s2 :: stac_item where
  "example_s2 = \<lparr>item_id = ''S2A-0820'', datetime = 20, platform = ''Sentinel-2A'',
                  bbox = (-122, 36, -121, 37)\<rparr>"

definition example_s2_far :: stac_item where
  "example_s2_far = \<lparr>item_id = ''S2B-0830'', datetime = 30, platform = ''Sentinel-2B'',
                      bbox = (-100, 40, -99, 41)\<rparr>"

definition example_l8 :: stac_item where
  "example_l8 = \<lparr>item_id = ''LC08-0825'', datetime = 25, platform = ''landsat-8'',
                  bbox = (-122, 36, -121, 37)\<rparr>"

definition example_l8_early :: stac_item where
  "example_l8_early = \<lparr>item_id = ''LC08-0818'', datetime = 18, platform = ''landsat-8'',
                        bbox = (-122, 36, -121, 37)\<rparr>"

definition example_l8_late :: stac_item where
  "example_l8_late = \<lparr>item_id = ''LC08-0904'', datetime = 35, platform = ''landsat-8'',
                       bbox = (-122, 36, -121, 37)\<rparr>"

definition example_l9 :: stac_item where
  "example_l9 = \<lparr>item_id = ''LC09-0924'', datetime = 55, platform = ''landsat-9'',
                  bbox = (-122, 36, -121, 37)\<rparr>"

definition example_geodesic :: geodesic where
  "example_geodesic m p b =
     (if b = 0 then Inr (fst p + m / 100000, snd p)
      else if b = 180 then Inr (fst p - m / 100000, snd p)
      else if b = 90 then Inr (fst p, snd p + m / 100000)
      else Inr (fst p, snd p - m / 100000))"

definition example_env :: env where
  "example_env =
     \<lparr>geodesic_destination = example_geodesic,
      catalog_search = (\<lambda>search_bbox search_date_range.
         Inr (filter (\<lambda>item. fst search_date_range \<le> datetime item
                               \<and> datetime item \<le> snd search_date_range)
                [example_l8, example_s2, example_l9])),
      crop_sentinel_image = (\<lambda>item save_bbox. Inr [[[10]], [[20]], [[30]]]),
      crop_landsat_image = (\<lambda>item save_bbox.
         if fst save_bbox < -121.5 then Inr [[[0]], [[0]], [[0]]]
         else Inr [[[40]], [[50]], [[60]]]),
      png_of_array = (\<lambda>image_array. Inr [[flatten image_array]]),
      numpy = Numpy1\<rparr>"

definition example_row :: row where
  "example_row = \<lparr>uid = ''aabn'', latitude = 36.5597, longitude = -121.51, date = 31,
                   split = ''test''\<rparr>"

definition example_row_later :: row where
  "example_row_later = \<lparr>uid = ''aabo'', latitude = 36.5597, longitude = -121.51, date = 400,
                         split = ''train''\<rparr>"

definition example_row_landsat :: row where
  "example_row_landsat = \<lparr>uid = ''aabp'', latitude = 36.5597, longitude = -121.51, date = 60,
                           split = ''train''\<rparr>"

definition example_row_east :: row where
  "example_row_east = \<lparr>uid = ''aabq'', latitude = 36.5597, longitude = -121.4, date = 400,
                        split = ''train''\<rparr>"

definition example_files :: "string \<rightharpoonup> raster" where
  "example_files = [''a.png'' \<mapsto> [[[128, 128, 0]]], ''b.png'' \<mapsto> [[[1, 2, 3]]]]"

definition example_state :: nb_state where
  "example_state = \<lparr>files = Map.empty, paths_dict = Map.empty, errored_ids = [],
                     last_selection = None, calls = []\<rparr>"

lemmas example_defs =
  example_s2_def example_s2_far_def example_l8_def example_l8_early_def example_l8_late_def
  example_l9_def example_geodesic_def example_env_def example_row_def example_row_later_def
  example_row_landsat_def example_row_east_def example_state_def

lemmas selector_defs =
  select_best_image_def contains_sample_point_def min_lat_def max_lat_def min_long_def
  max_long_def sentinel_def lower_def lower_char_def time_diff_def Let_def

lemmas loop_defs =
  get_data_cell_def process_row_def try_body_def acquire_def query_def get_best_image_def
  crop_image_def save_image_data_def image_pth_def get_bounding_box_def get_date_range_def
  pixel_sum_def flatten_def sum_is_zero_def py_sum_def

section \<open>Properties of the selector\<close>

lemma sort_key_head_least:
  assumes "sort_key f xs = b # rest"
  shows "b \<in> set xs \<and> (\<forall>x\<in>set xs. f b \<le> f x)"
proof -
  have s: "set (b # rest) = set xs"
    using assms set_sort [of f xs] by simp
  have "sorted (map f (b # rest))"
    using assms sorted_sort_key [of f xs] by simp
  then have "\<forall>x\<in>set rest. f b \<le> f x"
    by simp
  then have "\<forall>x\<in>set (b # rest). f b \<le> f x"
    by simp
  with s show ?thesis
    by (metis list.set_intros(1))
qed

lemma sort_key_not_Nil: "xs \<noteq> [] \<Longrightarrow> sort_key f xs \<noteq> []"
  using length_sort [of f xs] by (metis length_0_conv)

lemma select_best_image_least:
  assumes cs: "cs = filter (contains_sample_point lat lon) items"
    and rs: "rs = (if list_ex sentinel cs then filter sentinel cs else cs)"
    and ne: "cs \<noteq> []"
  shows "\<exists>b. select_best_image items day lat lon
                 = Inr (Selected b (platform b) (datetime b))
             \<and> b \<in> set rs \<and> (\<forall>x\<in>set rs. time_diff day b \<le> time_diff day x)"
proof -
  have items: "items \<noteq> []"
    using cs ne by auto
  have "rs \<noteq> []"
    using rs ne by (auto simp: list_ex_iff filter_empty_conv)
  then obtain b rest where srt: "sort_key (time_diff day) rs = b # rest"
    using sort_key_not_Nil [of rs "time_diff day"] by (cases "sort_key (time_diff day) rs") auto
  have sel: "select_best_image items day lat lon
               = Inr (Selected b (platform b) (datetime b))"
    unfolding select_best_image_def Let_def cs [symmetric] rs [symmetric]
    using items ne srt by simp
  from sort_key_head_least [OF srt] sel show ?thesis
    by blast
qed

lemma select_best_image_none:
  assumes "items \<noteq> []"
    and "filter (contains_sample_point lat lon) items = []"
  shows "select_best_image items day lat lon = Inr NoImage"
  using assms by (simp add: select_best_image_def Let_def)

text \<open>
  Claim C2. Whenever some candidate of the Sentinel family (its lower-cased platform
  name contains "sentinel") spatially contains the sample point, \<open>select_best_image\<close>
  returns a candidate of that family that contains the point, whatever the capture
  dates of the other candidates are.
\<close>

theorem select_best_image_prefers_sentinel:
  assumes "\<exists>c\<in>set items. sentinel c \<and> contains_sample_point lat lon c"
  shows "\<exists>b. select_best_image items day lat lon
                 = Inr (Selected b (platform b) (datetime b))
             \<and> b \<in> set items \<and> contains_sample_point lat lon b \<and> sentinel b"
proof -
  define cs where "cs = filter (contains_sample_point lat lon) items"
  define rs where "rs = (if list_ex sentinel cs then filter sentinel cs else cs)"
  from assms have ex: "list_ex sentinel cs" and ne: "cs \<noteq> []"
    by (auto simp: cs_def list_ex_iff filter_empty_conv)
  then have rs: "rs = filter sentinel cs"
    by (simp add: rs_def)
  from select_best_image_least [OF cs_def rs_def ne, of day]
  obtain b where "select_best_image items day lat lon
                 = Inr (Selected b (platform b) (datetime b))" "b \<in> set rs"
    by blast
  then show ?thesis
    unfolding rs cs_def by auto
qed

theorem select_best_image_prefers_sentinel_witness:
  "\<exists>b. select_best_image [example_l8, example_s2] 31 36.5597 (-121.51)
          = Inr (Selected b (platform b) (datetime b))
      \<and> b \<in> set [example_l8, example_s2]
      \<and> contains_sample_point 36.5597 (-121.51) b \<and> sentinel b"
proof -
  have h: "\<exists>c\<in>set [example_l8, example_s2].
             sentinel c \<and> contains_sample_point 36.5597 (-121.51) c"
    by (simp add: example_defs selector_defs)
  from select_best_image_prefers_sentinel [where day = 31, OF h] show ?thesis .
qed

text \<open>
  Claim C3. For a non-empty list of candidates that all contain the sample point, are
  all of one family, and are all captured on or before the sample date,
  \<open>select_best_image\<close> returns one of them whose capture day is the latest capture
  day of the list.
\<close>

theorem select_best_image_closest_prior:
  assumes ne: "items \<noteq> []"
    and inside: "\<forall>c\<in>set items. contains_sample_point lat lon c"
    and family: "(\<forall>c\<in>set items. sentinel c) \<or> (\<forall>c\<in>set items. \<not> sentinel c)"
    and prior: "\<forall>c\<in>set items. datetime c \<le> day"
  shows "\<exists>b. select_best_image items day lat lon
                 = Inr (Selected b (platform b) (datetime b))
             \<and> b \<in> set items \<and> datetime b \<le> day
             \<and> datetime b = Max (datetime ` set items)"
proof -
  define cs where "cs = filter (contains_sample_point lat lon) items"
  define rs where "rs = (if list_ex sentinel cs then filter sentinel cs else cs)"
  have cs: "cs = items"
    using inside by (simp add: cs_def)
  have rs: "set rs = set items"
    using family by (auto simp: rs_def cs list_ex_iff)
  from select_best_image_least [OF cs_def rs_def, of day] ne cs
  obtain b where sel: "select_best_image items day lat lon
                 = Inr (Selected b (platform b) (datetime b))"
    and b: "b \<in> set rs" and least: "\<forall>x\<in>set rs. time_diff day b \<le> time_diff day x"
    by auto
  have "\<forall>x\<in>set items. datetime x \<le> datetime b"
    using least rs by (simp add: time_diff_def)
  moreover have "b \<in> set items"
    using b rs by simp
  ultimately have "Max (datetime ` set items) = datetime b"
    by (intro Max_eqI) auto
  with sel \<open>b \<in> set items\<close> prior show ?thesis
    by auto
qed

theorem select_best_image_closest_prior_witness:
  "\<exists>b. select_best_image [example_l8_early, example_l8] 31 36.5597 (-121.51)
          = Inr (Selected b (platform b) (datetime b))
      \<and> b \<in> set [example_l8_early, example_l8] \<and> datetime b \<le> 31
      \<and> datetime b = Max (datetime ` set [example_l8_early, example_l8])"
proof -
  have h1: "[example_l8_early, example_l8] \<noteq> []"
    by simp
  have h2: "\<forall>c\<in>set [example_l8_early, example_l8]. contains_sample_point 36.5597 (-121.51) c"
    by (simp add: example_defs selector_defs)
  have h3: "(\<forall>c\<in>set [example_l8_early, example_l8]. sentinel c)
          \<or> (\<forall>c\<in>set [example_l8_early, example_l8]. \<not> sentinel c)"
    by (simp add: example_defs selector_defs)
  have h4: "\<forall>c\<in>set [example_l8_early, example_l8]. datetime c \<le> 31"
    by (simp add: example_defs)
  from select_best_image_closest_prior [OF h1 h2 h3 h4] show ?thesis .
qed

text \<open>
  Claim C4, as the code has it. On the empty list the selector raises: the data frame
  has no column \<open>min_lat\<close>. The loop never calls it there, it tests
  \<open>len(items) == 0\<close> first.
\<close>

theorem select_best_image_empty_raises:
  "select_best_image [] 31 36.5597 (-121.51) = Inl AttributeError"
  by (simp add: select_best_image_def)

text \<open>
  Claim C4, amended. On every non-empty list of candidates \<open>select_best_image\<close>
  returns a result and raises nothing, and when no candidate contains the sample point
  the result is the explicit empty one, \<open>(nan, nan, nan)\<close>.
\<close>

theorem select_best_image_total_nonempty:
  assumes "items \<noteq> []"
  shows "(\<exists>sel. select_best_image items day lat lon = Inr sel)
       \<and> ((\<forall>c\<in>set items. \<not> contains_sample_point lat lon c)
            \<longrightarrow> select_best_image items day lat lon = Inr NoImage)"
proof (cases "filter (contains_sample_point lat lon) items = []")
  case True
  from select_best_image_none [OF assms True] show ?thesis
    by simp
next
  case False
  from select_best_image_least [OF refl refl False, of day] False show ?thesis
    by (auto simp: filter_empty_conv)
qed

theorem select_best_image_total_nonempty_witness:
  "(\<exists>sel. select_best_image [example_s2_far] 31 36.5597 (-121.51) = Inr sel)
   \<and> select_best_image [example_s2_far] 31 36.5597 (-121.51) = Inr NoImage"
proof -
  have h1: "[example_s2_far] \<noteq> []"
    by simp
  have h2: "\<forall>c\<in>set [example_s2_far]. \<not> contains_sample_point 36.5597 (-121.51) c"
    by (simp add: example_defs selector_defs)
  from select_best_image_total_nonempty [OF h1, of 31 "36.5597" "-121.51"] h2 show ?thesis
    by blast
qed

text \<open>
  Claim C10, as stated, fails where the family preference removes the later capture:
  a Landsat scene captured after the sample date and a Sentinel scene captured before
  it both contain the point, and the earlier Sentinel scene is selected.
\<close>

theorem select_best_image_prior_sentinel_beats_later_landsat:
  "contains_sample_point 36.5597 (-121.51) example_l8_late
   \<and> 31 < datetime example_l8_late \<and> datetime example_s2 < 31
   \<and> select_best_image [example_l8_late, example_s2] 31 36.5597 (-121.51)
       = Inr (Selected example_s2 ''Sentinel-2A'' 20)"
  by (simp add: example_defs selector_defs)

text \<open>
  Claim C10, amended. Let \<open>rs\<close> be the candidates that remain after the containment
  filter and the Sentinel preference. If one of them is captured after the sample
  date, \<open>select_best_image\<close> returns a remaining candidate captured after the sample
  date: the one that minimises the signed difference sample date minus capture date
  over \<open>rs\<close>, which is the latest capture of \<open>rs\<close>, ahead of every earlier one.
\<close>

theorem select_best_image_later_capture_wins:
  assumes cs: "cs = filter (contains_sample_point lat lon) items"
    and rs: "rs = (if list_ex sentinel cs then filter sentinel cs else cs)"
    and later: "\<exists>c\<in>set rs. day < datetime c"
  shows "\<exists>b. select_best_image items day lat lon
                 = Inr (Selected b (platform b) (datetime b))
             \<and> b \<in> set rs \<and> day < datetime b
             \<and> (\<forall>c\<in>set rs. time_diff day b \<le> time_diff day c)
             \<and> (\<forall>c\<in>set rs. datetime c \<le> datetime b)"
proof -
  have ne: "cs \<noteq> []"
    using later rs by (auto split: if_splits)
  from select_best_image_least [OF cs rs ne, of day]
  obtain b where sel: "select_best_image items day lat lon
                 = Inr (Selected b (platform b) (datetime b))"
    and b: "b \<in> set rs" and least: "\<forall>x\<in>set rs. time_diff day b \<le> time_diff day x"
    by auto
  from later obtain c where "c \<in> set rs" "day < datetime c"
    by auto
  with least have "day < datetime b"
    by (fastforce simp: time_diff_def)
  moreover have "\<forall>c\<in>set rs. datetime c \<le> datetime b"
    using least by (simp add: time_diff_def)
  ultimately show ?thesis
    using sel b least by auto
qed

theorem select_best_image_later_capture_wins_witness:
  "\<exists>b. select_best_image [example_l8, example_l8_late] 31 36.5597 (-121.51)
          = Inr (Selected b (platform b) (datetime b))
      \<and> b \<in> set [example_l8, example_l8_late] \<and> 31 < datetime b
      \<and> (\<forall>c\<in>set [example_l8, example_l8_late]. time_diff 31 b \<le> time_diff 31 c)
      \<and> (\<forall>c\<in>set [example_l8, example_l8_late]. datetime c \<le> datetime b)"
proof -
  have h1: "[example_l8, example_l8_late]
              = filter (contains_sample_point 36.5597 (-121.51)) [example_l8, example_l8_late]"
    by (simp add: example_defs selector_defs)
  have h2: "[example_l8, example_l8_late]
              = (if list_ex sentinel [example_l8, example_l8_late]
                 then filter sentinel [example_l8, example_l8_late]
                 else [example_l8, example_l8_late])"
    by (simp add: example_defs selector_defs)
  have h3: "\<exists>c\<in>set [example_l8, example_l8_late]. 31 < datetime c"
    by (simp add: example_defs)
  from select_best_image_later_capture_wins [OF h1 h2 h3] show ?thesis .
qed

section \<open>Properties of the bounding box\<close>

text \<open>
  Claim C8, as stated, fails: \<open>get_bounding_box\<close> tests none of its arguments. With a
  geodesic routine that maps the distance 0 to the starting point, a radius of 0
  gives a box and no exception.
\<close>

theorem get_bounding_box_zero_radius_returns:
  "get_bounding_box example_geodesic 36.5597 (-121.51) 0
     = Inr (-121.51, 36.5597, -121.51, 36.5597)"
  by (simp add: get_bounding_box_def example_geodesic_def)

text \<open>
  Claim C8, amended. \<open>get_bounding_box\<close> validates nothing itself and has no error of
  its own: it raises exactly when one of its four geodesic destination computations
  (bearings 180, 270, 0 and 90) raises, and otherwise returns the box
  \<open>[min_long, min_lat, max_long, max_lat]\<close> made of the longitudes of the west and east
  points and the latitudes of the south and north points.
\<close>

theorem get_bounding_box_raises_iff_geodesic_raises:
  "((\<exists>e. get_bounding_box geo lat long m = Inl e)
      \<longleftrightarrow> (\<exists>b\<in>{180, 270, 0, 90}. \<exists>e. geo m (lat, long) b = Inl e))
   \<and> (\<forall>south west north east.
        geo m (lat, long) 180 = Inr south \<and> geo m (lat, long) 270 = Inr west
        \<and> geo m (lat, long) 0 = Inr north \<and> geo m (lat, long) 90 = Inr east
        \<longrightarrow> get_bounding_box geo lat long m = Inr (snd west, fst south, snd east, fst north))"
  by (auto simp: get_bounding_box_def Let_def split: sum.splits)

theorem get_bounding_box_raises_iff_geodesic_raises_witness:
  "get_bounding_box example_geodesic 36.5597 (-121.51) 1000
     = Inr (-121.52, 36.5497, -121.5, 36.5697)
   \<and> \<not> (\<exists>e. get_bounding_box example_geodesic 36.5597 (-121.51) 1000 = Inl e)"
proof -
  note t = get_bounding_box_raises_iff_geodesic_raises
             [where geo = example_geodesic and lat = "36.5597" and long = "-121.51" and m = 1000]
  have g: "example_geodesic 1000 (36.5597, -121.51) 180 = Inr (36.5497, -121.51)
         \<and> example_geodesic 1000 (36.5597, -121.51) 270 = Inr (36.5597, -121.52)
         \<and> example_geodesic 1000 (36.5597, -121.51) 0 = Inr (36.5697, -121.51)
         \<and> example_geodesic 1000 (36.5597, -121.51) 90 = Inr (36.5597, -121.5)"
    by (simp add: example_geodesic_def)
  from t g have "get_bounding_box example_geodesic 36.5597 (-121.51) 1000
     = Inr (snd (36.5597::real, -121.52::real), fst (36.5497::real, -121.51::real),
            snd (36.5597::real, -121.5::real), fst (36.5697::real, -121.51::real))"
    by blast
  then show ?thesis
    by simp
qed

section \<open>Properties of the all-black test\<close>

lemma foldl_unat_sum: "foldl (\<lambda>acc x. acc + unat x) a xs = a + sum_list (map unat xs)"
  by (induction xs arbitrary: a) simp_all

lemma py_sum_Numpy1: "py_sum Numpy1 xs = sum_list (map unat xs)"
  by (simp add: py_sum_def foldl_unat_sum)

lemma foldl_word_sum:
  "unat (foldl (\<lambda>acc x. acc + x) (a :: 8 word) xs) = (unat a + sum_list (map unat xs)) mod 256"
proof (induction xs arbitrary: a)
  case Nil
  have "unat a < 2 ^ LENGTH(8)"
    by (rule unsigned_less)
  then show ?case by simp
next
  case (Cons x xs)
  have "unat (a + x) = (unat a + unat x) mod 256"
    by (simp add: unat_word_ariths)
  then have "(unat (a + x) + sum_list (map unat xs)) mod 256
           = (unat a + unat x + sum_list (map unat xs)) mod 256"
    by (simp add: mod_add_left_eq)
  with Cons.IH [of "a + x"] show ?case
    by (simp add: add.assoc)
qed

lemma py_sum_Numpy2: "py_sum Numpy2 xs = sum_list (map unat xs) mod 256"
  by (simp add: py_sum_def foldl_word_sum)

text \<open>
  Under NumPy 1 the test holds of the rasters whose pixel sum is 0, the all-zero ones;
  under NumPy 2 of the rasters whose pixel sum is a multiple of 256. An all-zero
  raster passes the test under both.
\<close>

lemma sum_is_zero_Numpy1: "sum_is_zero Numpy1 a \<longleftrightarrow> pixel_sum a = 0"
  by (simp add: sum_is_zero_def pixel_sum_def py_sum_Numpy1)

lemma sum_is_zero_Numpy2: "sum_is_zero Numpy2 a \<longleftrightarrow> pixel_sum a mod 256 = 0"
  by (simp add: sum_is_zero_def pixel_sum_def py_sum_Numpy2)

lemma pixel_sum_zero_iff: "pixel_sum a = 0 \<longleftrightarrow> (\<forall>p\<in>set (flatten a). p = 0)"
  by (auto simp: pixel_sum_def unat_eq_0)

lemma black_sum_is_zero: "pixel_sum a = 0 \<Longrightarrow> sum_is_zero np a"
  by (cases np) (simp_all add: sum_is_zero_Numpy1 sum_is_zero_Numpy2)

section \<open>Properties of the acquisition loop\<close>

lemma query_keeps:
  assumes "query ev r st = (res, st')"
  shows "files st' = files st \<and> paths_dict st' = paths_dict st
       \<and> errored_ids st' = errored_ids st \<and> last_selection st' = last_selection st"
  using assms by (auto simp: query_def Let_def split: sum.splits)

lemma get_best_image_keeps:
  assumes "get_best_image items r st = (res, st')"
  shows "files st' = files st \<and> paths_dict st' = paths_dict st
       \<and> errored_ids st' = errored_ids st \<and> calls st' = calls st"
  using assms by (auto simp: get_best_image_def Let_def split: sum.splits if_splits)

lemma crop_image_keeps:
  assumes "crop_image ev r st = (res, st')"
  shows "files st' = files st \<and> paths_dict st' = paths_dict st
       \<and> errored_ids st' = errored_ids st \<and> last_selection st' = last_selection st"
  using assms
  by (auto simp: crop_image_def split: sum.splits option.splits selection.splits if_splits)

lemma acquire_keeps:
  assumes "acquire ev r st = (res, st')"
  shows "files st' = files st \<and> paths_dict st' = paths_dict st
       \<and> errored_ids st' = errored_ids st"
proof -
  obtain q st1 where q: "query ev r st = (q, st1)"
    by (cases "query ev r st")
  note k1 = query_keeps [OF q]
  show ?thesis
  proof (cases q)
    case (Inl e)
    with q assms k1 show ?thesis
      by (simp add: acquire_def)
  next
    case (Inr items)
    obtain g st2 where g: "get_best_image items r st1 = (g, st2)"
      by (cases "get_best_image items r st1")
    note k2 = get_best_image_keeps [OF g]
    show ?thesis
    proof (cases g)
      case (Inl e)
      with q Inr g assms k1 k2 show ?thesis
        by (simp add: acquire_def)
    next
      case (Inr u)
      with q \<open>q = Inr items\<close> g assms have "crop_image ev r st2 = (res, st')"
        by (simp add: acquire_def)
      from crop_image_keeps [OF this] k1 k2 show ?thesis
        by simp
    qed
  qed
qed

lemma save_image_data_fails:
  assumes "save_image_data ev r a st = (Inl e, st')"
  shows "st' = st"
  using assms by (auto simp: save_image_data_def split: if_splits sum.splits)

lemma save_image_data_succeeds:
  assumes "save_image_data ev r a st = (Inr u, st')"
  shows "errored_ids st' = errored_ids st \<and> paths_dict st' = (paths_dict st)(uid r \<mapsto> image_pth r)
       \<and> calls st' = calls st"
  using assms by (auto simp: save_image_data_def split: if_splits sum.splits)

lemma try_body_fails:
  assumes "try_body ev r st = (Inl e, st')"
  shows "files st' = files st \<and> paths_dict st' = paths_dict st \<and> errored_ids st' = errored_ids st"
proof -
  obtain a st1 where a: "acquire ev r st = (a, st1)"
    by (cases "acquire ev r st")
  note k = acquire_keeps [OF a]
  show ?thesis
  proof (cases a)
    case (Inl e')
    with a assms k show ?thesis
      by (simp add: try_body_def)
  next
    case (Inr arr)
    with a assms have "save_image_data ev r arr st1 = (Inl e, st')"
      by (simp add: try_body_def)
    from save_image_data_fails [OF this] k show ?thesis
      by simp
  qed
qed

lemma try_body_succeeds:
  assumes "try_body ev r st = (Inr u, st')"
  shows "errored_ids st' = errored_ids st \<and> paths_dict st' = (paths_dict st)(uid r \<mapsto> image_pth r)"
proof -
  obtain a st1 where a: "acquire ev r st = (a, st1)"
    by (cases "acquire ev r st")
  note k = acquire_keeps [OF a]
  show ?thesis
  proof (cases a)
    case (Inl e')
    with a assms show ?thesis
      by (simp add: try_body_def)
  next
    case (Inr arr)
    with a assms have "save_image_data ev r arr st1 = (Inr u, st')"
      by (simp add: try_body_def)
    from save_image_data_succeeds [OF this] k show ?thesis
      by simp
  qed
qed

lemma process_row_cached:
  assumes "files st (image_pth r) \<noteq> None"
  shows "process_row ev st r = st\<lparr>paths_dict := (paths_dict st)(uid r \<mapsto> image_pth r)\<rparr>"
  using assms by (simp add: process_row_def)

lemma process_row_failed:
  assumes "files st (image_pth r) = None" and "try_body ev r st = (Inl e, st')"
  shows "process_row ev st r = st'\<lparr>errored_ids := errored_ids st @ [uid r]\<rparr>"
  using assms try_body_fails [OF assms(2)] by (simp add: process_row_def)

lemma process_row_outcome:
  "(uid r \<in> dom (paths_dict (process_row ev st r))
      \<and> errored_ids (process_row ev st r) = errored_ids st)
   \<or> (paths_dict (process_row ev st r) = paths_dict st
      \<and> errored_ids (process_row ev st r) = errored_ids st @ [uid r])"
proof (cases "files st (image_pth r) \<noteq> None")
  case True
  then show ?thesis
    by (simp add: process_row_cached)
next
  case False
  obtain res st' where t: "try_body ev r st = (res, st')"
    by (cases "try_body ev r st")
  show ?thesis
  proof (cases res)
    case (Inl e)
    with False t process_row_failed [of st r ev e st'] try_body_fails [of ev r st e st']
    show ?thesis by simp
  next
    case (Inr u)
    with False t try_body_succeeds [of ev r st u st'] show ?thesis
      by (simp add: process_row_def)
  qed
qed

lemma process_row_grows:
  "dom (paths_dict st) \<subseteq> dom (paths_dict (process_row ev st r))
   \<and> set (errored_ids st) \<subseteq> set (errored_ids (process_row ev st r))
   \<and> set (errored_ids (process_row ev st r)) \<subseteq> insert (uid r) (set (errored_ids st))"
proof (cases "files st (image_pth r) \<noteq> None")
  case True
  then show ?thesis
    by (auto simp: process_row_cached)
next
  case False
  obtain res st' where t: "try_body ev r st = (res, st')"
    by (cases "try_body ev r st")
  show ?thesis
  proof (cases res)
    case (Inl e)
    with False t process_row_failed [of st r ev e st'] try_body_fails [of ev r st e st']
    show ?thesis by auto
  next
    case (Inr u)
    with False t try_body_succeeds [of ev r st u st'] show ?thesis
      by (auto simp: process_row_def)
  qed
qed

lemma loop_grows:
  "dom (paths_dict st) \<subseteq> dom (paths_dict (foldl (process_row ev) st rows))
   \<and> set (errored_ids st) \<subseteq> set (errored_ids (foldl (process_row ev) st rows))
   \<and> set (errored_ids (foldl (process_row ev) st rows)) \<subseteq> set (errored_ids st) \<union> uid ` set rows"
proof (induction rows arbitrary: st)
  case Nil
  then show ?case by simp
next
  case (Cons r rows)
  have "foldl (process_row ev) st (r # rows) = foldl (process_row ev) (process_row ev st r) rows"
    by simp
  with Cons.IH [of "process_row ev st r"] process_row_grows [of st ev r]
  show ?case by (simp only: list.set image_insert) blast
qed

lemma loop_outcome:
  assumes "r \<in> set rows"
  shows "uid r \<in> dom (paths_dict (foldl (process_row ev) st rows))
       \<or> uid r \<in> set (errored_ids (foldl (process_row ev) st rows))"
  using assms
proof (induction rows arbitrary: st)
  case Nil
  then show ?case by simp
next
  case (Cons x rows)
  show ?case
  proof (cases "r = x")
    case True
    from process_row_outcome [of r ev st]
    have "uid r \<in> dom (paths_dict (process_row ev st r))
        \<or> uid r \<in> set (errored_ids (process_row ev st r))"
      by auto
    with loop_grows [of "process_row ev st r" ev rows] True show ?thesis
      by auto
  next
    case False
    with Cons.prems have "r \<in> set rows"
      by simp
    from Cons.IH [OF this, of "process_row ev st x"] show ?thesis
      by simp
  qed
qed

lemma loop_cached:
  assumes "\<forall>r\<in>set rows. files st (image_pth r) \<noteq> None"
  shows "files (foldl (process_row ev) st rows) = files st
       \<and> calls (foldl (process_row ev) st rows) = calls st
       \<and> errored_ids (foldl (process_row ev) st rows) = errored_ids st
       \<and> last_selection (foldl (process_row ev) st rows) = last_selection st
       \<and> dom (paths_dict (foldl (process_row ev) st rows)) = dom (paths_dict st) \<union> uid ` set rows"
  using assms
proof (induction rows arbitrary: st)
  case Nil
  then show ?case by simp
next
  case (Cons r rows)
  then have step: "process_row ev st r = st\<lparr>paths_dict := (paths_dict st)(uid r \<mapsto> image_pth r)\<rparr>"
    by (simp add: process_row_cached)
  have "\<forall>x\<in>set rows. files (process_row ev st r) (image_pth x) \<noteq> None"
    using Cons.prems step by simp
  from Cons.IH [OF this] step show ?case
    by auto
qed

text \<open>
  Claim C1 does not hold of the loop. When the catalog returns no item, the branch is
  \<open>pass\<close> and the cell goes on to the crop with the \<open>best_item\<close> and
  \<open>item_platform\<close> that an earlier sample left behind. Here the second sample gets
  no item from the catalog, and the scene selected for the first sample is cropped
  and saved under the second sample's name, with no entry in \<open>errored_ids\<close>.
\<close>

theorem zero_items_reuses_previous_selection:
  "fst (query example_env example_row_later
          (get_data_cell example_env [example_row] example_state)) = Inr []
   \<and> files (get_data_cell example_env [example_row, example_row_later] example_state)
       (image_pth example_row_later) = Some [[[10, 20, 30]]]
   \<and> errored_ids (get_data_cell example_env [example_row, example_row_later] example_state) = []
   \<and> calls (get_data_cell example_env [example_row, example_row_later] example_state)
       = [(''aabn'', CatalogSearch), (''aabn'', FetchSentinel),
          (''aabo'', CatalogSearch), (''aabo'', FetchSentinel)]"
  by (simp add: example_defs loop_defs selector_defs)

text \<open>
  Claim C5. When a sample has no file yet and the raster its crop returns sums to 0,
  the iteration appends the sample's uid to \<open>errored_ids\<close>, and writes no file and no
  entry of \<open>paths_dict\<close>, under either NumPy.
\<close>

theorem all_black_raster_fails:
  assumes "files st (image_pth r) = None"
    and "acquire ev r st = (Inr image_array, st')"
    and "pixel_sum image_array = 0"
  shows "errored_ids (process_row ev st r) = errored_ids st @ [uid r]
       \<and> files (process_row ev st r) = files st
       \<and> paths_dict (process_row ev st r) = paths_dict st"
proof -
  have "try_body ev r st = (Inl (Exception ''Image is all black''), st')"
    using assms by (simp add: try_body_def save_image_data_def black_sum_is_zero)
  from process_row_failed [OF assms(1) this] acquire_keeps [OF assms(2)] show ?thesis
    by simp
qed

theorem all_black_raster_fails_witness:
  "errored_ids (process_row example_env example_state example_row_landsat) = [''aabp'']
   \<and> files (process_row example_env example_state example_row_landsat) = Map.empty
   \<and> paths_dict (process_row example_env example_state example_row_landsat) = Map.empty"
proof -
  have h1: "files example_state (image_pth example_row_landsat) = None"
    by (simp add: example_state_def)
  obtain st' where h2: "acquire example_env example_row_landsat example_state
                          = (Inr [[[0]], [[0]], [[0]]], st')"
    by (simp add: example_defs loop_defs selector_defs)
  have h3: "pixel_sum [[[0]], [[0]], [[0]]] = 0"
    by (simp add: pixel_sum_def flatten_def)
  from all_black_raster_fails [OF h1 h2 h3] show ?thesis
    by (simp add: example_state_def example_row_landsat_def)
qed

text \<open>
  What holds of a failing iteration. When the body of the \<open>try\<close> block raises for a
  sample, whatever the exception, the iteration appends the sample's uid to
  \<open>errored_ids\<close> and changes nothing else but the record of calls and the selection
  names: no file and no entry of \<open>paths_dict\<close>. The loop then goes on with the
  remaining rows from that state. At the end of the cell every entry of
  \<open>errored_ids\<close> is the uid of a row, and every row has its uid in \<open>paths_dict\<close> or
  in \<open>errored_ids\<close>.
\<close>

lemma failed_row_is_recorded:
  "(files st (image_pth r) = None \<and> fst (try_body ev r st) = Inl e \<longrightarrow>
       (\<exists>s c. process_row ev st r
                = st\<lparr>errored_ids := errored_ids st @ [uid r],
                     last_selection := s, calls := c\<rparr>))
   \<and> get_data_cell ev (rows1 @ r # rows2) st0
       = foldl (process_row ev) (process_row ev (get_data_cell ev rows1 st0) r) rows2
   \<and> set (errored_ids (get_data_cell ev rows st0)) \<subseteq> uid ` set rows
   \<and> (\<forall>x\<in>set rows. uid x \<in> dom (paths_dict (get_data_cell ev rows st0))
                   \<or> uid x \<in> set (errored_ids (get_data_cell ev rows st0)))"
proof -
  have step: "\<exists>s c. process_row ev st r
                = st\<lparr>errored_ids := errored_ids st @ [uid r],
                     last_selection := s, calls := c\<rparr>"
    if absent: "files st (image_pth r) = None" and raised: "fst (try_body ev r st) = Inl e"
  proof -
    obtain st' where t: "try_body ev r st = (Inl e, st')"
      using raised by (cases "try_body ev r st") auto
    have "process_row ev st r
           = st\<lparr>errored_ids := errored_ids st @ [uid r],
                last_selection := last_selection st', calls := calls st'\<rparr>"
      by (intro nb_state.equality)
         (simp_all add: process_row_failed [OF absent t] try_body_fails [OF t])
    then show ?thesis
      by blast
  qed
  have continues: "get_data_cell ev (rows1 @ r # rows2) st0
       = foldl (process_row ev) (process_row ev (get_data_cell ev rows1 st0) r) rows2"
    by (simp add: get_data_cell_def)
  have named: "set (errored_ids (get_data_cell ev rows st0)) \<subseteq> uid ` set rows"
    using loop_grows [of "st0\<lparr>paths_dict := Map.empty, errored_ids := []\<rparr>" ev rows]
    by (simp add: get_data_cell_def)
  have all: "\<forall>x\<in>set rows. uid x \<in> dom (paths_dict (get_data_cell ev rows st0))
                   \<or> uid x \<in> set (errored_ids (get_data_cell ev rows st0))"
    using loop_outcome [of _ rows ev "st0\<lparr>paths_dict := Map.empty, errored_ids := []\<rparr>"]
    by (simp add: get_data_cell_def)
  from step continues named all show ?thesis
    by blast
qed

text \<open>
  Claim C6 says that a sample whose processing raises is appended to the failure list
  and leaves the processing of all other samples unaffected. The second part does not
  hold of the loop: a sample that fails after its selection leaves \<open>best_item\<close> and
  \<open>item_platform\<close> bound, and a later sample with no item is cropped from them. Here
  the first sample fails on an all-black crop and is recorded; the second sample gets
  no item from the catalog, and is saved from the first sample's scene. Processed
  alone, the second sample fails (NameError) and no file is written for it.
\<close>

theorem failed_sample_changes_later_sample:
  "fst (try_body example_env example_row_landsat example_state)
     = Inl (Exception ''Image is all black'')
   \<and> errored_ids (get_data_cell example_env [example_row_landsat, example_row_east]
        example_state) = [''aabp'']
   \<and> files (get_data_cell example_env [example_row_landsat, example_row_east] example_state)
       (image_pth example_row_east) = Some [[[40, 50, 60]]]
   \<and> errored_ids (get_data_cell example_env [example_row_east] example_state) = [''aabq'']
   \<and> files (get_data_cell example_env [example_row_east] example_state)
       (image_pth example_row_east) = None"
  by (simp add: example_defs loop_defs selector_defs)

text \<open>
  Claim C7. A sample whose file already exists only gets its entry in \<open>paths_dict\<close>:
  no catalog query, no fetch, no other change of the state. Running the cell again on
  the same rows, once every row has its file, makes no call to the network, leaves the
  files as they are, records no failure and puts every row in \<open>paths_dict\<close>.
\<close>

theorem cached_sample_skipped:
  "(files st (image_pth r) \<noteq> None \<longrightarrow>
       process_row ev st r = st\<lparr>paths_dict := (paths_dict st)(uid r \<mapsto> image_pth r)\<rparr>)
   \<and> ((\<forall>x\<in>set rows. files (get_data_cell ev rows st0) (image_pth x) \<noteq> None) \<longrightarrow>
       calls (get_data_cell ev rows (get_data_cell ev rows st0)) = calls (get_data_cell ev rows st0)
     \<and> files (get_data_cell ev rows (get_data_cell ev rows st0)) = files (get_data_cell ev rows st0)
     \<and> errored_ids (get_data_cell ev rows (get_data_cell ev rows st0)) = []
     \<and> dom (paths_dict (get_data_cell ev rows (get_data_cell ev rows st0))) = uid ` set rows)"
proof -
  define st1 where "st1 = get_data_cell ev rows st0"
  have "calls (get_data_cell ev rows st1) = calls st1
     \<and> files (get_data_cell ev rows st1) = files st1
     \<and> errored_ids (get_data_cell ev rows st1) = []
     \<and> dom (paths_dict (get_data_cell ev rows st1)) = uid ` set rows"
    if "\<forall>x\<in>set rows. files st1 (image_pth x) \<noteq> None"
    using loop_cached [of rows "st1\<lparr>paths_dict := Map.empty, errored_ids := []\<rparr>" ev] that
    by (simp add: get_data_cell_def)
  then show ?thesis
    unfolding st1_def by (simp add: process_row_cached)
qed

theorem cached_sample_skipped_witness:
  "process_row example_env (get_data_cell example_env [example_row] example_state) example_row
     = (get_data_cell example_env [example_row] example_state)
         \<lparr>paths_dict := (paths_dict (get_data_cell example_env [example_row] example_state))
                          (uid example_row \<mapsto> image_pth example_row)\<rparr>
   \<and> calls (get_data_cell example_env [example_row]
              (get_data_cell example_env [example_row] example_state))
       = [(''aabn'', CatalogSearch), (''aabn'', FetchSentinel)]
   \<and> files (get_data_cell example_env [example_row]
              (get_data_cell example_env [example_row] example_state))
       = files (get_data_cell example_env [example_row] example_state)
   \<and> errored_ids (get_data_cell example_env [example_row]
              (get_data_cell example_env [example_row] example_state)) = []"
proof -
  note t = cached_sample_skipped
             [where st = "get_data_cell example_env [example_row] example_state"
                and r = example_row and ev = example_env
                and rows = "[example_row]" and ?st0.0 = example_state]
  have h: "files (get_data_cell example_env [example_row] example_state)
             (image_pth example_row) \<noteq> None"
    by (simp add: example_defs loop_defs selector_defs)
  have c: "calls (get_data_cell example_env [example_row] example_state)
             = [(''aabn'', CatalogSearch), (''aabn'', FetchSentinel)]"
    by (simp add: example_defs loop_defs selector_defs)
  from t h c show ?thesis
    by simp
qed

section \<open>Properties of the removal of all-black files\<close>

lemma scan_black_pngs_listed:
  assumes "set imgs \<subseteq> dom fs"
  shows "scan_black_pngs np fs imgs acc =
           (None, acc @ filter (\<lambda>i. case fs i of None \<Rightarrow> False
                                      | Some im \<Rightarrow> sum_is_zero np im) imgs)"
  using assms by (induction imgs arbitrary: acc) auto

lemma scan_black_pngs_clean:
  assumes "\<forall>i im. fs i = Some im \<longrightarrow> \<not> sum_is_zero np im"
  shows "snd (scan_black_pngs np fs imgs acc) = acc"
proof (induction imgs arbitrary: acc)
  case Nil
  then show ?case by simp
next
  case (Cons i imgs)
  show ?case
  proof (cases "fs i")
    case None
    then show ?thesis by simp
  next
    case (Some im)
    with assms have "\<not> sum_is_zero np im"
      by blast
    with Some Cons.IH show ?thesis
      by simp
  qed
qed

lemma remove_black_pngs_listed:
  assumes "distinct bl" "set bl \<subseteq> dom fs"
  shows "remove_black_pngs fs bl = (None, \<lambda>i. if i \<in> set bl then None else fs i)"
  using assms
proof (induction bl arbitrary: fs)
  case Nil
  then show ?case by simp
next
  case (Cons i bl)
  from Cons.prems obtain im where im: "fs i = Some im"
    by auto
  have "distinct bl" and "set bl \<subseteq> dom (fs(i := None))"
    using Cons.prems by auto
  then have "remove_black_pngs (fs(i := None)) bl
          = (None, \<lambda>j. if j \<in> set bl then None else (fs(i := None)) j)"
    by (rule Cons.IH)
  with im show ?case
    by (auto simp: fun_eq_iff)
qed

text \<open>
  What holds of the two cells under either NumPy. When \<open>imgs\<close> lists the files of the
  directory, each once, the cells raise nothing, collect exactly the listed names that
  pass the test \<open>sum(im_arr.flatten()) == 0\<close>, and remove exactly those files. Run
  again right after, on any listing, they collect no name and remove no file.
\<close>

lemma remove_all_black_removes_flagged:
  assumes "distinct imgs" and "set imgs = dom fs"
  shows "\<exists>fs'. remove_all_black np fs imgs =
           ((None, None),
            filter (\<lambda>i. case fs i of None \<Rightarrow> False | Some im \<Rightarrow> sum_is_zero np im) imgs,
            fs')
       \<and> (\<forall>i. fs' i = (case fs i of None \<Rightarrow> None
                       | Some im \<Rightarrow> if sum_is_zero np im then None else Some im))
       \<and> (\<forall>imgs2. snd (remove_all_black np fs' imgs2) = ([], fs'))"
proof -
  define black where
    "black = filter (\<lambda>i. case fs i of None \<Rightarrow> False | Some im \<Rightarrow> sum_is_zero np im) imgs"
  define fs' where "fs' = (\<lambda>i. if i \<in> set black then None else fs i)"
  have scan: "scan_black_pngs np fs imgs [] = (None, black)"
    using scan_black_pngs_listed [of imgs fs np "[]"] assms by (simp add: black_def)
  have "distinct black" "set black \<subseteq> dom fs"
    using assms by (auto simp: black_def)
  then have rm: "remove_black_pngs fs black = (None, fs')"
    unfolding fs'_def by (rule remove_black_pngs_listed)
  have first: "remove_all_black np fs imgs = ((None, None), black, fs')"
    by (simp add: remove_all_black_def scan rm)
  have content: "fs' i = (case fs i of None \<Rightarrow> None
                       | Some im \<Rightarrow> if sum_is_zero np im then None else Some im)" for i
    using assms by (auto simp: fs'_def black_def split: option.splits)
  have clean: "\<forall>i im. fs' i = Some im \<longrightarrow> \<not> sum_is_zero np im"
    by (auto simp: content split: option.splits if_splits)
  have second: "snd (remove_all_black np fs' imgs2) = ([], fs')" for imgs2
  proof -
    have "snd (scan_black_pngs np fs' imgs2 []) = []"
      using clean by (rule scan_black_pngs_clean)
    then obtain e1 where "scan_black_pngs np fs' imgs2 [] = (e1, [])"
      by (cases "scan_black_pngs np fs' imgs2 []") auto
    then show ?thesis
      by (simp add: remove_all_black_def)
  qed
  from first content second show ?thesis
    unfolding black_def by blast
qed

text \<open>
  Claim C9 says that the cells delete exactly the files whose pixel values sum to
  zero. Under NumPy 2 they do not: the sum wraps around at 256, so a file that is not
  black but whose pixel values sum to a multiple of 256 passes the test and is
  deleted. Here \<open>a.png\<close> has the one pixel (128, 128, 0), of sum 256: the cells
  collect and remove it. Under NumPy 1 they collect nothing.
\<close>

theorem remove_all_black_removes_nonblack_file:
  "example_files ''a.png'' = Some [[[128, 128, 0]]]
   \<and> pixel_sum [[[128, 128, 0]]] = 256
   \<and> fst (snd (remove_all_black Numpy2 example_files [''a.png'', ''b.png''])) = [''a.png'']
   \<and> snd (snd (remove_all_black Numpy2 example_files [''a.png'', ''b.png''])) ''a.png'' = None
   \<and> snd (snd (remove_all_black Numpy2 example_files [''a.png'', ''b.png''])) ''b.png''
       = Some [[[1, 2, 3]]]
   \<and> fst (snd (remove_all_black Numpy1 example_files [''a.png'', ''b.png''])) = []"
  by (simp add: remove_all_black_def example_files_def pixel_sum_def flatten_def
        sum_is_zero_def py_sum_def)

end
